theory Spec2Isabelle
  imports Complex_Main "HOL-Library.Sublist"
begin

section \<open>Batcher\<close>

text \<open>
  \<^verbatim>\<open>batched(iterable, n)\<close> is a generator. Its input is a finite list here, so the
  generator is modelled by the list of the groups it yields, in order. The local
  \<^verbatim>\<open>batch\<close> is the accumulator of the loop; \<^verbatim>\<open>n\<close> is a Python integer and may be
  zero or negative.
\<close>

fun batched_loop :: "'a list \<Rightarrow> int \<Rightarrow> 'a list \<Rightarrow> 'a list list" where
  "batched_loop [] n batch = (if batch \<noteq> [] then [batch] else [])"
| "batched_loop (item # rest) n batch =
     (let batch1 = batch @ [item]
      in if int (length batch1) \<ge> n then batch1 # batched_loop rest n []
         else batched_loop rest n batch1)"

definition batched :: "'a list \<Rightarrow> int \<Rightarrow> 'a list list" where
  "batched iterable n = batched_loop iterable n []"

section \<open>Exceptions\<close>

text \<open>
  The exceptions the program distinguishes. \<^verbatim>\<open>ClientError\<close> is the provider's error
  response; it carries the value of \<^verbatim>\<open>e.response.get("Error", {}).get("Code")\<close>,
  which is \<^verbatim>\<open>None\<close> when the response has no code. \<^verbatim>\<open>RuntimeError\<close> is raised by
  \<^verbatim>\<open>empty_bucket\<close> itself, \<^verbatim>\<open>ReError\<close> by \<^verbatim>\<open>re.compile\<close>, \<^verbatim>\<open>ValueError\<close> by the thread
  pool's constructor, \<^verbatim>\<open>OverflowError\<close> by the arithmetic of a backoff delay. \<^verbatim>\<open>OtherException\<close> stands for any other exception a call of the
  client library raises (a connection failure, a rejected parameter): a handler
  \<^verbatim>\<open>except ClientError\<close> does not catch it, a handler \<^verbatim>\<open>except Exception\<close> does.
\<close>

datatype exn =
    ClientError "string option"
  | RuntimeError string
  | ReError string
  | ValueError string
  | OverflowError string
  | OtherException string

section \<open>The provider, as seen through one client\<close>

text \<open>
  The object store is outside the program. One client's conversation about one bucket
  is modelled by three oracles that answer the k-th call of each kind, and by a log of
  what the program did: how many listings it started, which batches it sent to the
  batched delete, how many times it called delete-bucket, and how long it slept. A
  listing is the finite sequence of what iterating the paginator gives: a page (the
  keys of its \<^verbatim>\<open>Contents\<close>, empty when the entry is absent) or an exception raised
  while fetching it.
\<close>

type_synonym object_key = string

record delete_response =
  Deleted :: "object_key list"
  Errors :: "object_key list"

record s3_client =
  on_list_objects :: "nat \<Rightarrow> (exn + object_key list) list"
  on_delete_objects :: "nat \<Rightarrow> exn + delete_response"
  on_delete_bucket :: "nat \<Rightarrow> exn + unit"
  listings :: nat
  delete_requests :: "object_key list list"
  delete_bucket_requests :: nat
  slept :: "rat list"

definition paginate :: "s3_client \<Rightarrow> (exn + object_key list) list \<times> s3_client" where
  "paginate s = (on_list_objects s (listings s), s\<lparr>listings := Suc (listings s)\<rparr>)"

definition call_delete_objects ::
  "object_key list \<Rightarrow> s3_client \<Rightarrow> (exn + delete_response) \<times> s3_client" where
  "call_delete_objects batch s =
     (on_delete_objects s (length (delete_requests s)),
      s\<lparr>delete_requests := delete_requests s @ [batch]\<rparr>)"

definition call_delete_bucket :: "s3_client \<Rightarrow> (exn + unit) \<times> s3_client" where
  "call_delete_bucket s =
     (on_delete_bucket s (delete_bucket_requests s),
      s\<lparr>delete_bucket_requests := Suc (delete_bucket_requests s)\<rparr>)"

definition sleep :: "rat \<Rightarrow> s3_client \<Rightarrow> s3_client" where
  "sleep d s = s\<lparr>slept := slept s @ [d]\<rparr>"

text \<open>
  The delay \<^verbatim>\<open>min(2 ** attempt * unit, cap)\<close>, with \<^verbatim>\<open>unit\<close> and \<^verbatim>\<open>cap\<close> floats. The
  product converts the integer \<^verbatim>\<open>2 ** attempt\<close> to a float, and the conversion raises
  \<^verbatim>\<open>OverflowError\<close> from \<^verbatim>\<open>2 ** 1024\<close> on: \<open>float_limit\<close> is that exponent. Below
  it the product is a power of two
  in range (the units used are 0.25 and 0.5), so the float the source computes is the
  exact rational given here.
\<close>

definition float_limit :: nat where
  "float_limit = 1024"

definition backoff :: "nat \<Rightarrow> rat \<Rightarrow> rat \<Rightarrow> exn + rat" where
  "backoff attempt unit cap =
     (if attempt \<ge> float_limit
      then Inl (OverflowError ''int too large to convert to float'')
      else Inr (min (2 ^ attempt * unit) cap))"

section \<open>Bucket Drainer\<close>

text \<open>
  The dictionary \<^verbatim>\<open>empty_bucket\<close> returns, to which \<^verbatim>\<open>worker\<close> adds the key
  \<^verbatim>\<open>"final"\<close>; \<^verbatim>\<open>r.get("final")\<close> is \<^verbatim>\<open>None\<close> while the key is absent. The field
  \<open>bucket_name\<close> is the key \<^verbatim>\<open>"bucket"\<close>.
\<close>

record summary =
  bucket_name :: string
  deleted :: int
  status :: string
  final :: "string option"

text \<open>
  The loop \<^verbatim>\<open>for attempt in range(max_delete_retries)\<close> over one batch, with the ways
  it ends: \<^verbatim>\<open>break\<close>, the \<^verbatim>\<open>return\<close> of the gone summary, the loop's \<^verbatim>\<open>else\<close> branch
  (the range is exhausted), or an exception that \<^verbatim>\<open>except ClientError\<close> does not catch:
  one raised by the delete call, or the \<^verbatim>\<open>OverflowError\<close> of a delay, which is
  computed inside the \<^verbatim>\<open>try\<close> block after per-key errors and inside the handler
  after a provider error.
\<close>

datatype attempt_exit = Break | Return_gone | Loop_else | Uncaught exn

fun delete_attempts ::
  "nat list \<Rightarrow> object_key list \<Rightarrow> int \<Rightarrow> s3_client \<Rightarrow> attempt_exit \<times> int \<times> s3_client" where
  "delete_attempts [] batch total_deleted s = (Loop_else, total_deleted, s)"
| "delete_attempts (attempt # rest) batch total_deleted s =
     (case call_delete_objects batch s of
        (Inr resp, s1) \<Rightarrow>
          (let total1 = total_deleted + int (length (Deleted resp))
           in if Errors resp \<noteq> []
              then (case backoff attempt (1 / 4) 4 of
                      Inl e \<Rightarrow> (Uncaught e, total1, s1)
                    | Inr d \<Rightarrow> delete_attempts rest (Errors resp) total1 (sleep d s1))
              else (Break, total1, s1))
      | (Inl (ClientError code), s1) \<Rightarrow>
          if code = Some ''NoSuchBucket'' then (Return_gone, total_deleted, s1)
          else (case backoff attempt (1 / 2) 4 of
                  Inl e \<Rightarrow> (Uncaught e, total_deleted, s1)
                | Inr d \<Rightarrow> delete_attempts rest batch total_deleted (sleep d s1))
      | (Inl e, s1) \<Rightarrow> (Uncaught e, total_deleted, s1))"

text \<open>
  How a loop over batches or over pages ends: it ran to its end (\<open>Completed\<close>),
  the function returned the gone summary, or an exception left it.
\<close>

datatype drain_exit = Completed | Gone | Raised exn

fun drain_batches ::
  "object_key list list \<Rightarrow> string \<Rightarrow> int \<Rightarrow> int \<Rightarrow> s3_client \<Rightarrow> drain_exit \<times> int \<times> s3_client" where
  "drain_batches [] bucket max_delete_retries total_deleted s = (Completed, total_deleted, s)"
| "drain_batches (batch # rest) bucket max_delete_retries total_deleted s =
     (case delete_attempts [0..<nat max_delete_retries] batch total_deleted s of
        (Break, total1, s1) \<Rightarrow> drain_batches rest bucket max_delete_retries total1 s1
      | (Return_gone, total1, s1) \<Rightarrow> (Gone, total1, s1)
      | (Loop_else, total1, s1) \<Rightarrow>
          (Raised (RuntimeError
             (''Failed to delete some objects in '' @ bucket @ '' after retries.'')),
           total1, s1)
      | (Uncaught e, total1, s1) \<Rightarrow> (Raised e, total1, s1))"

fun drain_pages ::
  "(exn + object_key list) list \<Rightarrow> string \<Rightarrow> int \<Rightarrow> int \<Rightarrow> int \<Rightarrow> s3_client
    \<Rightarrow> drain_exit \<times> int \<times> s3_client" where
  "drain_pages [] bucket batch_size max_delete_retries total_deleted s =
     (Completed, total_deleted, s)"
| "drain_pages (Inl e # rest) bucket batch_size max_delete_retries total_deleted s =
     (Raised e, total_deleted, s)"
| "drain_pages (Inr contents # rest) bucket batch_size max_delete_retries total_deleted s =
     (if contents = []
      then drain_pages rest bucket batch_size max_delete_retries total_deleted s
      else (case drain_batches (batched contents batch_size) bucket max_delete_retries
                   total_deleted s of
              (Completed, total1, s1) \<Rightarrow>
                drain_pages rest bucket batch_size max_delete_retries total1 s1
            | other \<Rightarrow> other))"

definition empty_bucket ::
  "s3_client \<Rightarrow> string \<Rightarrow> int \<Rightarrow> int \<Rightarrow> (exn + summary) \<times> s3_client" where
  "empty_bucket s3_client bucket batch_size max_delete_retries =
     (case paginate s3_client of
        (pages, s0) \<Rightarrow>
          (case drain_pages pages bucket batch_size max_delete_retries 0 s0 of
             (Raised e, total_deleted, s1) \<Rightarrow> (Inl e, s1)
           | (Gone, total_deleted, s1) \<Rightarrow>
               (Inr \<lparr>bucket_name = bucket, deleted = total_deleted, status = ''gone'',
                     final = None\<rparr>, s1)
           | (Completed, total_deleted, s1) \<Rightarrow>
               (Inr \<lparr>bucket_name = bucket, deleted = total_deleted, status = ''emptied'',
                     final = None\<rparr>, s1)))"

section \<open>Bucket Remover\<close>

text \<open>
  The loop \<^verbatim>\<open>for i in range(retries)\<close> of \<^verbatim>\<open>delete_bucket\<close>: it returns a status
  (\<open>Inr (Some st)\<close>), falls out of the range (\<open>Inr None\<close>), or lets through an
  exception: one of the delete-bucket call that is not a \<^verbatim>\<open>ClientError\<close>, or the
  \<^verbatim>\<open>OverflowError\<close> of the delay, which is computed inside the handler.
\<close>

fun delete_bucket_attempts :: "nat list \<Rightarrow> s3_client \<Rightarrow> (exn + string option) \<times> s3_client" where
  "delete_bucket_attempts [] s = (Inr None, s)"
| "delete_bucket_attempts (i # rest) s =
     (case call_delete_bucket s of
        (Inr u, s1) \<Rightarrow> (Inr (Some ''deleted''), s1)
      | (Inl (ClientError code), s1) \<Rightarrow>
          if code = Some ''NoSuchBucket'' then (Inr (Some ''gone''), s1)
          else (case backoff i (1 / 2) 5 of
                  Inl e \<Rightarrow> (Inl e, s1)
                | Inr d \<Rightarrow> delete_bucket_attempts rest (sleep d s1))
      | (Inl e, s1) \<Rightarrow> (Inl e, s1))"

text \<open>
  The \<^verbatim>\<open>try\<close> block after the loop: \<^verbatim>\<open>empty_bucket\<close> with its default batch size and
  retry budget, then one more delete-bucket call; \<^verbatim>\<open>except Exception\<close> turns every
  exception of either into the status \<^verbatim>\<open>"failed"\<close>.
\<close>

definition delete_bucket_fallback :: "s3_client \<Rightarrow> string \<Rightarrow> string \<times> s3_client" where
  "delete_bucket_fallback s bucket =
     (case empty_bucket s bucket 1000 5 of
        (Inl e, s1) \<Rightarrow> (''failed'', s1)
      | (Inr drained, s1) \<Rightarrow>
          (case call_delete_bucket s1 of
             (Inr u, s2) \<Rightarrow> (''deleted'', s2)
           | (Inl e, s2) \<Rightarrow> (''failed'', s2)))"

definition delete_bucket :: "s3_client \<Rightarrow> string \<Rightarrow> int \<Rightarrow> (exn + string) \<times> s3_client" where
  "delete_bucket s3_client bucket retries =
     (case delete_bucket_attempts [0..<nat retries] s3_client of
        (Inl e, s1) \<Rightarrow> (Inl e, s1)
      | (Inr (Some st), s1) \<Rightarrow> (Inr st, s1)
      | (Inr None, s1) \<Rightarrow>
          (case delete_bucket_fallback s1 bucket of (st, s2) \<Rightarrow> (Inr st, s2)))"

section \<open>Worker\<close>

text \<open>
  \<^verbatim>\<open>worker\<close> builds its own client and runs the Drainer with the default retry budget
  of \<^verbatim>\<open>empty_bucket\<close>, then the Remover with its default budget when asked to.
\<close>

definition worker :: "s3_client \<Rightarrow> string \<Rightarrow> int \<Rightarrow> bool \<Rightarrow> (exn + summary) \<times> s3_client" where
  "worker s3 bucket batch_size do_delete_bucket =
     (case empty_bucket s3 bucket batch_size 5 of
        (Inl e, s1) \<Rightarrow> (Inl e, s1)
      | (Inr summary, s1) \<Rightarrow>
          if do_delete_bucket
          then (case delete_bucket s1 bucket 5 of
                  (Inl e, s2) \<Rightarrow> (Inl e, s2)
                | (Inr st, s2) \<Rightarrow> (Inr (summary\<lparr>final := Some st\<rparr>), s2))
          else (Inr (summary\<lparr>final := Some ''emptied''\<rparr>), s1))"

section \<open>Name Filter\<close>

text \<open>
  The regular-expression library is outside the program; it is the parameter
  \<open>re_compile\<close>, which gives for a pattern either the exception \<^verbatim>\<open>re.compile\<close> raises
  or the predicate \<^verbatim>\<open>rx.search(n) is not None\<close>. The tests \<^verbatim>\<open>if include_prefix:\<close> and
  \<^verbatim>\<open>if exclude_regex:\<close> are Python truth tests: \<^verbatim>\<open>None\<close> and the empty string
  are both false.
\<close>

definition filter_buckets ::
  "(string \<Rightarrow> exn + (string \<Rightarrow> bool)) \<Rightarrow> string list \<Rightarrow> string option \<Rightarrow> string option
    \<Rightarrow> exn + string list" where
  "filter_buckets re_compile names include_prefix exclude_regex =
     (let out = (case include_prefix of
                   None \<Rightarrow> names
                 | Some p \<Rightarrow> if p \<noteq> [] then filter (\<lambda>n. prefix p n) names else names)
      in case exclude_regex of
           None \<Rightarrow> Inr out
         | Some pattern \<Rightarrow>
             if pattern \<noteq> []
             then (case re_compile pattern of
                     Inl e \<Rightarrow> Inl e
                   | Inr rx \<Rightarrow> Inr (filter (\<lambda>n. \<not> rx n) out))
             else Inr out)"

text \<open>
  The Name Filter as the specification words it, for comparison with \<open>filter_buckets\<close>:
  prefix inclusion when an include prefix is given, then regular-expression exclusion
  when an exclude pattern is given.
\<close>

definition name_filter_spec ::
  "(string \<Rightarrow> exn + (string \<Rightarrow> bool)) \<Rightarrow> string list \<Rightarrow> string option \<Rightarrow> string option
    \<Rightarrow> exn + string list" where
  "name_filter_spec re_compile names include_prefix exclude_regex =
     (let kept = (case include_prefix of
                    None \<Rightarrow> names
                  | Some p \<Rightarrow> filter (\<lambda>n. prefix p n) names)
      in case exclude_regex of
           None \<Rightarrow> Inr kept
         | Some pattern \<Rightarrow>
             (case re_compile pattern of
                Inl e \<Rightarrow> Inl e
              | Inr rx \<Rightarrow> Inr (filter (\<lambda>n. \<not> rx n) kept)))"

text \<open>
  What the library does on the smallest fragment of patterns: a literal text,
  optionally anchored by \<^verbatim>\<open>^\<close> in front and by \<^verbatim>\<open>$\<close> at the end. Such a pattern
  compiles, and a search succeeds when the text occurs in the name (at the start when
  anchored in front; at the end, or just before a final newline, when anchored at the
  end). A pattern with any other metacharacter is outside the fragment: for it
  \<open>literal_re_compile\<close> hands over to \<open>elsewhere\<close>, the library on all other
  patterns, which is not described here. The statements below that use
  \<open>literal_re_compile\<close> hold for every \<open>elsewhere\<close>.
\<close>

definition meta_chars :: string where
  "meta_chars = ''.^$*+?{}[]|()'' @ [CHR 0x5C]"

definition anchored_start :: "string \<Rightarrow> bool" where
  "anchored_start pattern = (pattern \<noteq> [] \<and> hd pattern = CHR ''^'')"

definition after_start :: "string \<Rightarrow> string" where
  "after_start pattern = (if anchored_start pattern then tl pattern else pattern)"

definition anchored_end :: "string \<Rightarrow> bool" where
  "anchored_end pattern =
     (after_start pattern \<noteq> [] \<and> last (after_start pattern) = CHR ''$'')"

definition literal_body :: "string \<Rightarrow> string" where
  "literal_body pattern =
     (if anchored_end pattern then butlast (after_start pattern) else after_start pattern)"

definition literal_fragment :: "string \<Rightarrow> bool" where
  "literal_fragment pattern = (\<not> list_ex (\<lambda>c. c \<in> set meta_chars) (literal_body pattern))"

definition literal_search :: "string \<Rightarrow> string \<Rightarrow> bool" where
  "literal_search pattern n =
     list_ex
       (\<lambda>t. if anchored_end pattern
            then t = literal_body pattern \<or> t = literal_body pattern @ [CHR 0x0A]
            else prefix (literal_body pattern) t)
       (if anchored_start pattern then [n] else suffixes n)"

definition literal_re_compile ::
  "(string \<Rightarrow> exn + (string \<Rightarrow> bool)) \<Rightarrow> string \<Rightarrow> exn + (string \<Rightarrow> bool)" where
  "literal_re_compile elsewhere pattern =
     (if literal_fragment pattern then Inr (literal_search pattern) else elsewhere pattern)"

section \<open>Run Scheduler\<close>

text \<open>
  What \<^verbatim>\<open>main\<close> prints, one constructor per \<^verbatim>\<open>click.echo\<close>, with the values the
  line is formatted from. \<open>Echo_no_match\<close> and \<open>Echo_error\<close> go to the error stream.
\<close>

datatype event =
    Echo_no_match
  | Echo_target_count nat
  | Echo_target string
  | Echo_result string int "string option"
  | Echo_error string exn
  | Echo_summary
  | Echo_success nat nat
  | Echo_failed_buckets
  | Echo_failed string "string option"

text \<open>
  The loop over \<^verbatim>\<open>as_completed(futs)\<close>. The buckets arrive in completion order; each
  future holds what \<^verbatim>\<open>worker\<close> returned or raised, on the client \<open>session b\<close> that
  the worker built for its bucket.
\<close>

fun collect ::
  "(string \<Rightarrow> s3_client) \<Rightarrow> string list \<Rightarrow> int \<Rightarrow> bool \<Rightarrow> summary list \<Rightarrow> event list
    \<Rightarrow> summary list \<times> event list" where
  "collect session [] batch_size do_delete_bucket results out = (results, out)"
| "collect session (b # rest) batch_size do_delete_bucket results out =
     (case fst (worker (session b) b batch_size do_delete_bucket) of
        Inr res \<Rightarrow>
          collect session rest batch_size do_delete_bucket (results @ [res])
            (out @ [Echo_result b (deleted res) (final res)])
      | Inl e \<Rightarrow>
          collect session rest batch_size do_delete_bucket results (out @ [Echo_error b e]))"

definition is_ok :: "summary \<Rightarrow> bool" where
  "is_ok r = (final r = Some ''deleted'' \<or> final r = Some ''gone'')"

text \<open>
  A run: how the process ends (the exit code of \<^verbatim>\<open>sys.exit\<close>, or an exception that
  nothing catches), what it printed, and the list \<^verbatim>\<open>results\<close>.
\<close>

record run =
  exit_status :: "exn + int"
  echoed :: "event list"
  collected :: "summary list"

text \<open>
  \<^verbatim>\<open>main\<close> from the list of candidate names on. The thread pool is represented by
  the order in which it completes the submitted tasks: \<open>as_completed\<close> maps the targets
  to the same buckets in completion order. Its constructor raises \<^verbatim>\<open>ValueError\<close> for
  a pool size that is not positive.
\<close>

definition main ::
  "(string \<Rightarrow> exn + (string \<Rightarrow> bool)) \<Rightarrow> (string list \<Rightarrow> string list) \<Rightarrow> (string \<Rightarrow> s3_client)
    \<Rightarrow> string list \<Rightarrow> string option \<Rightarrow> string option \<Rightarrow> int \<Rightarrow> int \<Rightarrow> bool \<Rightarrow> bool \<Rightarrow> run" where
  "main re_compile as_completed session candidates include_prefix exclude_regex
        max_workers batch_size dry_run do_delete_bucket =
     (case filter_buckets re_compile candidates include_prefix exclude_regex of
        Inl e \<Rightarrow> \<lparr>exit_status = Inl e, echoed = [], collected = []\<rparr>
      | Inr targets \<Rightarrow>
          if targets = []
          then \<lparr>exit_status = Inr 1, echoed = [Echo_no_match], collected = []\<rparr>
          else
            (let out0 = Echo_target_count (length targets) # map Echo_target targets
             in if dry_run
                then \<lparr>exit_status = Inr 0, echoed = out0, collected = []\<rparr>
                else if max_workers \<le> 0
                then \<lparr>exit_status = Inl (ValueError ''max_workers must be greater than 0''),
                      echoed = out0, collected = []\<rparr>
                else
                  (case collect session (as_completed targets) batch_size do_delete_bucket
                          [] out0 of
                     (results, out1) \<Rightarrow>
                       (let ok = filter is_ok results;
                            ng = filter (\<lambda>r. \<not> is_ok r) results
                        in \<lparr>exit_status = Inr (if ng = [] then 0 else 2),
                            echoed = out1 @ [Echo_summary,
                                             Echo_success (length ok) (length targets)]
                              @ (if ng \<noteq> []
                                 then Echo_failed_buckets
                                        # map (\<lambda>r. Echo_failed (bucket_name r) (final r)) ng
                                 else []),
                            collected = results\<rparr>))))"

section \<open>Example conversations\<close>

text \<open>
  A client that has not been used yet, on given oracles, and the conversations used
  as concrete inputs below.
\<close>

definition fresh_client ::
  "(nat \<Rightarrow> (exn + object_key list) list) \<Rightarrow> (nat \<Rightarrow> exn + delete_response) \<Rightarrow> (nat \<Rightarrow> exn + unit)
    \<Rightarrow> s3_client" where
  "fresh_client on_list on_delete on_remove =
     \<lparr>on_list_objects = on_list, on_delete_objects = on_delete, on_delete_bucket = on_remove,
      listings = 0, delete_requests = [], delete_bucket_requests = 0, slept = []\<rparr>"

text \<open>The response of a batched delete in quiet mode when every key was deleted.\<close>

definition quiet_ok :: "exn + delete_response" where
  "quiet_ok = Inr \<lparr>Deleted = [], Errors = []\<rparr>"

text \<open>An empty bucket: one page without contents; delete-bucket succeeds.\<close>

definition empty_store :: s3_client where
  "empty_store = fresh_client (\<lambda>k. [Inr []]) (\<lambda>k. quiet_ok) (\<lambda>k. Inr ())"

text \<open>A bucket with one object whose batched delete is always throttled.\<close>

definition throttled_store :: s3_client where
  "throttled_store =
     fresh_client (\<lambda>k. [Inr [''k1'']]) (\<lambda>k. Inl (ClientError (Some ''SlowDown'')))
       (\<lambda>k. Inr ())"

text \<open>A bucket that no longer exists: the first listing call reports it.\<close>

definition vanished_store :: s3_client where
  "vanished_store =
     fresh_client (\<lambda>k. [Inl (ClientError (Some ''NoSuchBucket''))]) (\<lambda>k. quiet_ok)
       (\<lambda>k. Inl (ClientError (Some ''NoSuchBucket'')))"

section \<open>Outcomes of one call, as the retry loops classify them\<close>

text \<open>
  An attempt of the batched delete that completes without the batch fully succeeding:
  the response reports per-key errors, or the call raises a \<^verbatim>\<open>ClientError\<close> whose code
  is not \<^verbatim>\<open>NoSuchBucket\<close>. In both cases the loop goes on to the next attempt.
\<close>

definition retryable :: "exn + delete_response \<Rightarrow> bool" where
  "retryable r =
     (case r of
        Inr resp \<Rightarrow> Errors resp \<noteq> []
      | Inl (ClientError code) \<Rightarrow> code \<noteq> Some ''NoSuchBucket''
      | Inl e \<Rightarrow> False)"

text \<open>
  A delete-bucket attempt that fails for a reason other than not-found, in a way the
  loop's \<^verbatim>\<open>except ClientError\<close> catches; and one whose exception that handler does
  not catch.
\<close>

definition fails_other :: "exn + unit \<Rightarrow> bool" where
  "fails_other r =
     (case r of
        Inl (ClientError code) \<Rightarrow> code \<noteq> Some ''NoSuchBucket''
      | Inl e \<Rightarrow> False
      | Inr u \<Rightarrow> False)"


text \<open>
  What a drain leaves untouched in the client: the oracles, the count of delete-bucket
  calls and the count of listings started.
\<close>

definition drain_frame :: "s3_client \<Rightarrow> s3_client \<Rightarrow> bool" where
  "drain_frame s s1 =
     (on_list_objects s1 = on_list_objects s \<and> on_delete_objects s1 = on_delete_objects s
      \<and> on_delete_bucket s1 = on_delete_bucket s
      \<and> delete_bucket_requests s1 = delete_bucket_requests s \<and> listings s1 = listings s)"

text \<open>
  The client after \<open>n\<close> failed attempts of the Remover's loop, for \<open>n\<close> up to
  \<open>float_limit\<close>: \<open>n\<close> more delete-bucket calls, and the sleep \<open>min (2 ^ i * 0.5) 5\<close>
  after each attempt \<open>i < n\<close>.
\<close>

definition after_failures :: "s3_client \<Rightarrow> nat \<Rightarrow> s3_client" where
  "after_failures s n =
     s\<lparr>delete_bucket_requests := delete_bucket_requests s + n,
       slept := slept s @ map (\<lambda>i. min (2 ^ i * (1 / 2)) 5) [0..<n]\<rparr>"

text \<open>
  An empty bucket whose removal is refused five times and which another actor has
  removed by the sixth call.
\<close>

definition racing_store :: s3_client where
  "racing_store =
     fresh_client (\<lambda>k. [Inr []]) (\<lambda>k. quiet_ok)
       (\<lambda>k. if k < 5 then Inl (ClientError (Some ''BucketNotEmpty''))
            else Inl (ClientError (Some ''NoSuchBucket'')))"



text \<open>
  A page of a thousand keys \<open>k0\<close>, ..., \<open>k999\<close>, and a store whose batched delete,
  called in quiet mode, reports \<open>k3\<close> and \<open>k77\<close> as per-key errors on the first call
  and nothing on the later ones. A quiet response lists no deleted key.
\<close>

fun decimal :: "nat \<Rightarrow> string" where
  "decimal n =
     (if n < 10 then [''0123456789'' ! n]
      else decimal (n div 10) @ [''0123456789'' ! (n mod 10)])"

declare decimal.simps [simp del]

definition key_name :: "nat \<Rightarrow> object_key" where
  "key_name i = CHR ''k'' # decimal i"

definition thousand_keys :: "object_key list" where
  "thousand_keys = map key_name [0..<1000]"

definition thousand_store :: s3_client where
  "thousand_store =
     fresh_client (\<lambda>k. [Inr thousand_keys])
       (\<lambda>k. if k = 0 then Inr \<lparr>Deleted = [], Errors = [''k3'', ''k77'']\<rparr> else quiet_ok)
       (\<lambda>k. Inr ())"

section \<open>Properties of the Batcher\<close>

lemma concat_batched_loop: "concat (batched_loop xs n batch) = batch @ xs"
  by (induction xs arbitrary: batch) (simp_all add: Let_def)

lemma batched_loop_sizes:
  assumes "0 < n" and "int (length batch) < n"
  shows "\<forall>g \<in> set (batched_loop xs n batch). g \<noteq> [] \<and> int (length g) \<le> n"
  using assms
proof (induction xs arbitrary: batch)
  case Nil
  then show ?case by simp
next
  case (Cons x xs)
  have fresh: "\<forall>g \<in> set (batched_loop xs n []). g \<noteq> [] \<and> int (length g) \<le> n"
    using Cons.IH [of "[]"] Cons.prems(1) by simp
  show ?case
  proof (cases "int (length (batch @ [x])) \<ge> n")
    case True
    then have "int (length (batch @ [x])) = n"
      using Cons.prems(2) by simp
    with True fresh show ?thesis
      by (simp add: Let_def)
  next
    case False
    then have "int (length (batch @ [x])) < n" by simp
    from Cons.IH [OF Cons.prems(1) this] False show ?thesis
      by (simp add: Let_def)
  qed
qed

lemma batched_loop_full_groups:
  assumes "0 < n" and "int (length batch) < n"
  shows "\<forall>g \<in> set (butlast (batched_loop xs n batch)). int (length g) = n"
  using assms
proof (induction xs arbitrary: batch)
  case Nil
  then show ?case by simp
next
  case (Cons x xs)
  have fresh: "\<forall>g \<in> set (butlast (batched_loop xs n [])). int (length g) = n"
    using Cons.IH [of "[]"] Cons.prems(1) by simp
  show ?case
  proof (cases "int (length (batch @ [x])) \<ge> n")
    case True
    then have "int (length (batch @ [x])) = n"
      using Cons.prems(2) by simp
    with True fresh show ?thesis
      by (simp add: Let_def)
  next
    case False
    then have "int (length (batch @ [x])) < n" by simp
    from Cons.IH [OF Cons.prems(1) this] False show ?thesis
      by (simp add: Let_def)
  qed
qed

lemma batched_loop_count:
  assumes "0 < n" and "int (length batch) < n"
  shows "length (batched_loop xs n batch) = (length batch + length xs + nat n - 1) div nat n"
  using assms
proof (induction xs arbitrary: batch)
  case Nil
  then show ?case by (cases batch) simp_all
next
  case (Cons x xs)
  show ?case
  proof (cases "int (length (batch @ [x])) \<ge> n")
    case True
    then have full: "Suc (length batch) = nat n"
      using Cons.prems by simp
    have "length (batched_loop xs n []) = (length xs + nat n - 1) div nat n"
      using Cons.IH [of "[]"] Cons.prems(1) by simp
    moreover have "(length batch + length (x # xs) + nat n - 1) div nat n
        = Suc ((length xs + nat n - 1) div nat n)"
    proof -
      have "length batch + length (x # xs) + nat n - 1 = (length xs + nat n - 1) + nat n"
        using full Cons.prems(1) by simp
      moreover have "((length xs + nat n - 1) + nat n) div nat n
          = (length xs + nat n - 1) div nat n + 1"
        using Cons.prems(1) by (intro div_add_self2) simp
      ultimately show ?thesis by simp
    qed
    ultimately show ?thesis
      using True by (simp add: Let_def)
  next
    case False
    then have "int (length (batch @ [x])) < n" by simp
    from Cons.IH [OF Cons.prems(1) this] False show ?thesis
      by (simp add: Let_def)
  qed
qed

lemma batched_loop_nonpositive:
  "n \<le> 0 \<Longrightarrow> batched_loop xs n [] = map (\<lambda>x. [x]) xs"
  by (induction xs) (simp_all add: Let_def)

text \<open>
  C7. For a batch size \<open>n > 0\<close> and an input of length \<open>L\<close>, the Batcher yields
  \<open>ceil (L / n)\<close> groups, written \<open>(L + n - 1) div n\<close>; their concatenation in order
  is the input; every group has at most \<open>n\<close> items and every group but the last has
  exactly \<open>n\<close>; the empty input yields no group.
\<close>

theorem batched_groups:
  assumes "0 < n"
  shows "length (batched (xs :: 'a list) n) = (length xs + nat n - 1) div nat n
    \<and> concat (batched xs n) = xs
    \<and> (\<forall>g \<in> set (batched xs n). int (length g) \<le> n)
    \<and> (\<forall>g \<in> set (butlast (batched xs n)). int (length g) = n)
    \<and> batched ([] :: 'a list) n = []"
proof -
  have start: "int (length ([] :: 'a list)) < n"
    using assms by simp
  have "length (batched xs n) = (length xs + nat n - 1) div nat n"
    using batched_loop_count [OF assms start, of xs] by (simp add: batched_def)
  moreover have "concat (batched xs n) = xs"
    by (simp add: batched_def concat_batched_loop)
  moreover have "\<forall>g \<in> set (batched xs n). int (length g) \<le> n"
    using batched_loop_sizes [OF assms start, of xs] by (simp add: batched_def)
  moreover have "\<forall>g \<in> set (butlast (batched xs n)). int (length g) = n"
    using batched_loop_full_groups [OF assms start, of xs] by (simp add: batched_def)
  moreover have "batched ([] :: 'a list) n = []"
    by (simp add: batched_def)
  ultimately show ?thesis by blast
qed

theorem batched_groups_witness:
  "batched [1, 2, 3, 4, 5 :: nat] 2 = [[1, 2], [3, 4], [5]]
    \<and> length (batched [1, 2, 3, 4, 5 :: nat] 2) = (5 + nat 2 - 1) div nat 2
    \<and> concat (batched [1, 2, 3, 4, 5 :: nat] 2) = [1, 2, 3, 4, 5]"
  using batched_groups [of 2 "[1, 2, 3, 4, 5 :: nat]"]
  by (simp add: batched_def)

text \<open>
  C9. For a batch size \<open>n \<le> 0\<close> the Batcher still returns: the test
  \<^verbatim>\<open>len(batch) >= n\<close> holds after every append, so it yields one singleton group per
  item, in input order.
\<close>

theorem batched_nonpositive:
  assumes "n \<le> 0"
  shows "batched xs n = map (\<lambda>x. [x]) xs"
  using assms by (simp add: batched_def batched_loop_nonpositive)

theorem batched_nonpositive_witness:
  "batched ''abc'' 0 = [''a'', ''b'', ''c''] \<and> batched [7, 8 :: nat] (- 3) = [[7], [8]]"
  using batched_nonpositive [of 0 "''abc''"] batched_nonpositive [of "- 3" "[7, 8 :: nat]"]
  by simp

section \<open>Run Scheduler: what the summary counts\<close>

text \<open>
  C1. A run without \<^verbatim>\<open>--delete-bucket\<close> on one empty bucket. The drain completes,
  the worker records \<^verbatim>\<open>final = "emptied"\<close>, and \<^verbatim>\<open>main\<close> counts only \<^verbatim>\<open>"deleted"\<close>
  and \<^verbatim>\<open>"gone"\<close> as success: the summary reports 0 successes of 1, lists the bucket
  as failed, and the exit code is 2.
\<close>

theorem main_kept_bucket_exit:
  "main re_compile id (\<lambda>b. empty_store) [''b''] None None 16 1000 False False
    = \<lparr>exit_status = Inr 2,
       echoed = [Echo_target_count 1, Echo_target ''b'',
                 Echo_result ''b'' 0 (Some ''emptied''),
                 Echo_summary, Echo_success 0 1,
                 Echo_failed_buckets, Echo_failed ''b'' (Some ''emptied'')],
       collected = [\<lparr>bucket_name = ''b'', deleted = 0, status = ''emptied'',
                      final = Some ''emptied''\<rparr>]\<rparr>"
  by code_simp

text \<open>
  C2. A run with \<^verbatim>\<open>--delete-bucket\<close> on one bucket whose batched delete is throttled
  at every attempt. The worker raises after five attempts; \<^verbatim>\<open>main\<close> prints the error
  line and appends nothing to \<^verbatim>\<open>results\<close>, so the bucket is in neither list of the
  summary and the exit code is 0.
\<close>

theorem main_raised_bucket_exit:
  "main re_compile id (\<lambda>b. throttled_store) [''b''] None None 16 1000 False True
    = \<lparr>exit_status = Inr 0,
       echoed = [Echo_target_count 1, Echo_target ''b'',
                 Echo_error ''b''
                   (RuntimeError ''Failed to delete some objects in b after retries.''),
                 Echo_summary, Echo_success 0 1],
       collected = []\<rparr>"
  by code_simp

section \<open>Properties of the Bucket Drainer\<close>

lemma backoff_in_range:
  "attempt < float_limit \<Longrightarrow> backoff attempt unit cap = Inr (min (2 ^ attempt * unit) cap)"
  by (simp add: backoff_def)

lemma backoff_overflow:
  "float_limit \<le> attempt \<Longrightarrow>
     backoff attempt unit cap = Inl (OverflowError ''int too large to convert to float'')"
  by (simp add: backoff_def)

lemma range_in_range: "list_all (\<lambda>a. a < l) [0..<n] \<longleftrightarrow> n \<le> l"
proof
  assume all: "list_all (\<lambda>a. a < l) [0..<n]"
  show "n \<le> l"
  proof (rule ccontr)
    assume "\<not> n \<le> l"
    then have "l \<in> set [0..<n]" by simp
    with all have "l < l" by (auto simp: list_all_iff)
    then show False by simp
  qed
next
  assume "n \<le> l"
  then show "list_all (\<lambda>a. a < l) [0..<n]"
    by (simp add: list_all_iff)
qed

lemma range_before_overflow:
  assumes "l < n"
  shows "takeWhile (\<lambda>a. a < l) [0..<n] = [0..<l]"
proof -
  have "[0..<n] = [0..<l] @ [l..<n]"
    using assms by (metis less_imp_le_nat upt_add_eq_append le_add_diff_inverse zero_le)
  moreover have "[l..<n] = l # [Suc l..<n]"
    using assms by (rule upt_conv_Cons)
  ultimately have split: "[0..<n] = [0..<l] @ l # [Suc l..<n]" by simp
  have "takeWhile (\<lambda>a. a < l) ([0..<l] @ l # [Suc l..<n])
      = [0..<l] @ takeWhile (\<lambda>a. a < l) (l # [Suc l..<n])"
    by (rule takeWhile_append2) simp
  also have "takeWhile (\<lambda>a. a < l) (l # [Suc l..<n]) = []"
    by simp
  finally have "takeWhile (\<lambda>a. a < l) ([0..<l] @ l # [Suc l..<n]) = [0..<l]"
    by simp
  then show ?thesis
    by (simp only: split)
qed

lemma delete_attempts_retryable:
  "(\<And>k. k < length attempts \<Longrightarrow>
      retryable (on_delete_objects s (length (delete_requests s) + k)))
   \<Longrightarrow> \<exists>total1 s1. delete_attempts attempts batch total_deleted s =
           (if list_all (\<lambda>a. a < float_limit) attempts then Loop_else
            else Uncaught (OverflowError ''int too large to convert to float''), total1, s1)
         \<and> length (delete_requests s1) = length (delete_requests s)
             + (if list_all (\<lambda>a. a < float_limit) attempts then length attempts
                else Suc (length (takeWhile (\<lambda>a. a < float_limit) attempts)))"
proof (induction attempts arbitrary: batch total_deleted s)
  case Nil
  then show ?case by simp
next
  case (Cons a attempts)
  let ?r = "on_delete_objects s (length (delete_requests s))"
  let ?s1 = "s\<lparr>delete_requests := delete_requests s @ [batch]\<rparr>"
  have first: "retryable ?r"
    using Cons.prems [of 0] by simp
  have later: "\<And>d k. k < length attempts \<Longrightarrow>
      retryable (on_delete_objects (sleep d ?s1) (length (delete_requests (sleep d ?s1)) + k))"
    using Cons.prems by (force simp: sleep_def)
  have len: "\<And>d. length (delete_requests (sleep d ?s1)) = Suc (length (delete_requests s))"
    by (simp add: sleep_def)
  show ?case
  proof (cases "a < float_limit")
    case False
    then have over: "\<And>unit cap. backoff a unit cap
        = Inl (OverflowError ''int too large to convert to float'')"
      by (simp add: backoff_overflow)
    show ?thesis
    proof (cases ?r)
      case (Inr resp)
      with first have "Errors resp \<noteq> []" by (simp add: retryable_def)
      with Inr False over show ?thesis
        by (simp add: call_delete_objects_def Let_def)
    next
      case (Inl e)
      with first obtain code where "e = ClientError code" and "code \<noteq> Some ''NoSuchBucket''"
        by (cases e) (simp_all add: retryable_def)
      with Inl False over show ?thesis
        by (simp add: call_delete_objects_def)
    qed
  next
    case True
    then have delay: "\<And>unit cap. backoff a unit cap = Inr (min (2 ^ a * unit) cap)"
      by (simp add: backoff_in_range)
    show ?thesis
    proof (cases ?r)
      case (Inr resp)
      with first have err: "Errors resp \<noteq> []" by (simp add: retryable_def)
      from Cons.IH [OF later] obtain total1 s1 where
        "delete_attempts attempts (Errors resp) (total_deleted + int (length (Deleted resp)))
           (sleep (min (2 ^ a * (1 / 4)) 4) ?s1) =
             (if list_all (\<lambda>a. a < float_limit) attempts then Loop_else
              else Uncaught (OverflowError ''int too large to convert to float''), total1, s1)
         \<and> length (delete_requests s1)
             = length (delete_requests (sleep (min (2 ^ a * (1 / 4)) 4) ?s1))
               + (if list_all (\<lambda>a. a < float_limit) attempts then length attempts
                  else Suc (length (takeWhile (\<lambda>a. a < float_limit) attempts)))"
        by blast
      with Inr err len True delay show ?thesis
        by (simp add: call_delete_objects_def Let_def)
    next
      case (Inl e)
      with first obtain code where e: "e = ClientError code"
        and code: "code \<noteq> Some ''NoSuchBucket''"
        by (cases e) (simp_all add: retryable_def)
      from Cons.IH [OF later] obtain total1 s1 where
        "delete_attempts attempts batch total_deleted
           (sleep (min (2 ^ a * (1 / 2)) 4) ?s1) =
             (if list_all (\<lambda>a. a < float_limit) attempts then Loop_else
              else Uncaught (OverflowError ''int too large to convert to float''), total1, s1)
         \<and> length (delete_requests s1)
             = length (delete_requests (sleep (min (2 ^ a * (1 / 2)) 4) ?s1))
               + (if list_all (\<lambda>a. a < float_limit) attempts then length attempts
                  else Suc (length (takeWhile (\<lambda>a. a < float_limit) attempts)))"
        by blast
      with Inl e code len True delay show ?thesis
        by (simp add: call_delete_objects_def)
    qed
  qed
qed

lemma delete_attempts_budget:
  assumes "\<forall>k < n. retryable (on_delete_objects s (length (delete_requests s) + k))"
  shows "\<exists>total1 s1. delete_attempts [0..<n] batch total_deleted s =
           (if n \<le> float_limit then Loop_else
            else Uncaught (OverflowError ''int too large to convert to float''), total1, s1)
         \<and> length (delete_requests s1)
             = length (delete_requests s) + min n (Suc float_limit)"
proof -
  have pre: "\<And>k. k < length [0..<n] \<Longrightarrow>
      retryable (on_delete_objects s (length (delete_requests s) + k))"
    using assms by simp
  from delete_attempts_retryable [of "[0..<n]" s batch total_deleted, OF pre]
  obtain total1 s1 where
    run: "delete_attempts [0..<n] batch total_deleted s =
           (if list_all (\<lambda>a. a < float_limit) [0..<n] then Loop_else
            else Uncaught (OverflowError ''int too large to convert to float''), total1, s1)"
    and calls: "length (delete_requests s1) = length (delete_requests s)
             + (if list_all (\<lambda>a. a < float_limit) [0..<n] then length [0..<n]
                else Suc (length (takeWhile (\<lambda>a. a < float_limit) [0..<n])))"
    by blast
  show ?thesis
  proof (cases "n \<le> float_limit")
    case True
    with run calls show ?thesis
      by (simp only: range_in_range) simp
  next
    case False
    then have "takeWhile (\<lambda>a. a < float_limit) [0..<n] = [0..<float_limit]"
      by (intro range_before_overflow) simp
    with False run calls show ?thesis
      by (simp only: range_in_range) simp
  qed
qed

lemma drain_batches_append:
  "drain_batches (xs @ ys) bucket m total_deleted s =
     (case drain_batches xs bucket m total_deleted s of
        (Completed, total1, s1) \<Rightarrow> drain_batches ys bucket m total1 s1
      | other \<Rightarrow> other)"
  by (induction xs arbitrary: total_deleted s)
     (auto split: prod.splits attempt_exit.splits drain_exit.splits)

lemma drain_pages_append:
  "drain_pages (xs @ ys) bucket n m total_deleted s =
     (case drain_pages xs bucket n m total_deleted s of
        (Completed, total1, s1) \<Rightarrow> drain_pages ys bucket n m total1 s1
      | other \<Rightarrow> other)"
  by (induction xs bucket n m total_deleted s rule: drain_pages.induct)
     (auto split: prod.splits drain_exit.splits)

lemma empty_bucket_listing_raises:
  assumes "on_list_objects s (listings s) = Inl e # rest"
  shows "empty_bucket s bucket batch_size max_delete_retries
           = (Inl e, s\<lparr>listings := Suc (listings s)\<rparr>)"
  using assms by (simp add: empty_bucket_def paginate_def)

text \<open>
  C5. Take any batch the drain reaches: the pages before its page and the batches
  before it in its page were completed. If each of the \<open>max_delete_retries\<close> attempts
  on it completes without the batch fully succeeding (per-key errors, which narrow the
  batch, or a provider error other than not-found), then \<open>empty_bucket\<close> does not
  return a summary: it raises. For a budget of at most \<open>float_limit\<close> (1024) the
  exception is the \<^verbatim>\<open>RuntimeError\<close> of the loop's \<^verbatim>\<open>else\<close> branch, after exactly that
  many delete calls for the batch; for a larger budget it is the \<^verbatim>\<open>OverflowError\<close>
  of the delay after the 1025th call.
\<close>

theorem drain_exhausted_raises:
  assumes pages: "on_list_objects s (listings s) = earlier_pages @ Inr contents # later_pages"
    and batches: "batched contents batch_size = earlier_batches @ batch # later_batches"
    and reached_page: "drain_pages earlier_pages bucket batch_size max_delete_retries 0
           (s\<lparr>listings := Suc (listings s)\<rparr>) = (Completed, total1, s1)"
    and reached_batch: "drain_batches earlier_batches bucket max_delete_retries total1 s1
           = (Completed, total2, s2)"
    and failing: "\<forall>k < nat max_delete_retries.
           retryable (on_delete_objects s2 (length (delete_requests s2) + k))"
  shows "\<exists>s3. empty_bucket s bucket batch_size max_delete_retries
           = (Inl (if max_delete_retries \<le> int float_limit
                   then RuntimeError
                          (''Failed to delete some objects in '' @ bucket @ '' after retries.'')
                   else OverflowError ''int too large to convert to float''), s3)
         \<and> length (delete_requests s3)
             = length (delete_requests s2) + min (nat max_delete_retries) (Suc float_limit)"
proof -
  let ?raised = "if max_delete_retries \<le> int float_limit
      then RuntimeError (''Failed to delete some objects in '' @ bucket @ '' after retries.'')
      else OverflowError ''int too large to convert to float''"
  have nonempty: "contents \<noteq> []"
    using batches by (auto simp: batched_def)
  from delete_attempts_budget [of "nat max_delete_retries" s2 batch total2] failing
  obtain total3 s3 where
    loop: "delete_attempts [0..<nat max_delete_retries] batch total2 s2 =
        (if nat max_delete_retries \<le> float_limit then Loop_else
         else Uncaught (OverflowError ''int too large to convert to float''), total3, s3)"
    and len: "length (delete_requests s3)
        = length (delete_requests s2) + min (nat max_delete_retries) (Suc float_limit)"
    by blast
  have bound: "nat max_delete_retries \<le> float_limit
      \<longleftrightarrow> max_delete_retries \<le> int float_limit"
    by auto
  have "drain_batches (batched contents batch_size) bucket max_delete_retries total1 s1
      = (Raised ?raised, total3, s3)"
    using reached_batch loop bound by (simp add: batches drain_batches_append)
  then have "drain_pages (earlier_pages @ Inr contents # later_pages) bucket batch_size
        max_delete_retries 0 (s\<lparr>listings := Suc (listings s)\<rparr>)
      = (Raised ?raised, total3, s3)"
    using reached_page nonempty by (simp add: drain_pages_append)
  then have "empty_bucket s bucket batch_size max_delete_retries = (Inl ?raised, s3)"
    by (simp add: empty_bucket_def paginate_def pages)
  with len show ?thesis by blast
qed

theorem drain_exhausted_raises_witness:
  "\<exists>s3. empty_bucket throttled_store ''b'' 1000 5
          = (Inl (RuntimeError ''Failed to delete some objects in b after retries.''), s3)
        \<and> length (delete_requests s3) = 5"
proof -
  let ?s0 = "throttled_store\<lparr>listings := Suc (listings throttled_store)\<rparr>"
  have pages: "on_list_objects throttled_store (listings throttled_store)
      = [] @ Inr [''k1''] # []"
    by (simp add: throttled_store_def fresh_client_def)
  have batches: "batched [''k1''] 1000 = [] @ [''k1''] # []"
    by (simp add: batched_def)
  have reached_page: "drain_pages [] ''b'' 1000 5 0 ?s0 = (Completed, 0, ?s0)"
    by simp
  have reached_batch: "drain_batches [] ''b'' 5 0 ?s0 = (Completed, 0, ?s0)"
    by simp
  have failing: "\<forall>k < nat 5.
      retryable (on_delete_objects ?s0 (length (delete_requests ?s0) + k))"
    by (simp add: throttled_store_def fresh_client_def retryable_def)
  show ?thesis
    using drain_exhausted_raises [OF pages batches reached_page reached_batch failing]
    by (simp add: throttled_store_def fresh_client_def float_limit_def)
qed

text \<open>
  C4. When the first listing call raises the provider's not-found error, the iteration
  over the pages is outside every \<^verbatim>\<open>try\<close> block of \<open>empty_bucket\<close>: the error
  propagates to the caller. No summary is returned and no delete call is made.
\<close>

theorem empty_bucket_listing_not_found:
  assumes "on_list_objects s (listings s) = Inl (ClientError (Some ''NoSuchBucket'')) # rest"
  shows "empty_bucket s bucket batch_size max_delete_retries
           = (Inl (ClientError (Some ''NoSuchBucket'')), s\<lparr>listings := Suc (listings s)\<rparr>)"
  using assms by (rule empty_bucket_listing_raises)

theorem empty_bucket_listing_not_found_witness:
  "fst (empty_bucket vanished_store ''b'' 1000 5) = Inl (ClientError (Some ''NoSuchBucket''))
    \<and> delete_requests (snd (empty_bucket vanished_store ''b'' 1000 5)) = []"
proof -
  have "on_list_objects vanished_store (listings vanished_store)
      = Inl (ClientError (Some ''NoSuchBucket'')) # []"
    by (simp add: vanished_store_def fresh_client_def)
  from empty_bucket_listing_not_found [OF this, of "''b''" 1000 5] show ?thesis
    by (simp add: vanished_store_def fresh_client_def)
qed

section \<open>What a drain leaves unchanged\<close>

lemma drain_frame_refl: "drain_frame s s"
  by (simp add: drain_frame_def)

lemma drain_frame_step:
  "drain_frame (sleep d (snd (call_delete_objects batch s))) s1 \<Longrightarrow> drain_frame s s1"
  by (simp add: drain_frame_def sleep_def call_delete_objects_def)

lemma drain_frame_call: "drain_frame s (snd (call_delete_objects batch s))"
  by (simp add: drain_frame_def call_delete_objects_def)

lemma drain_frame_trans: "drain_frame s s1 \<Longrightarrow> drain_frame s1 s2 \<Longrightarrow> drain_frame s s2"
  by (simp add: drain_frame_def)

lemma delete_attempts_frame:
  "drain_frame s (snd (snd (delete_attempts attempts batch total_deleted s)))"
proof (induction attempts arbitrary: batch total_deleted s)
  case Nil
  show ?case by (simp add: drain_frame_refl)
next
  case (Cons a attempts)
  obtain r s1 where call: "call_delete_objects batch s = (r, s1)"
    by (cases "call_delete_objects batch s")
  then have s1: "s1 = snd (call_delete_objects batch s)" by simp
  have step: "\<And>d b t. drain_frame s (snd (snd (delete_attempts attempts b t (sleep d s1))))"
    using Cons.IH drain_frame_step s1 by blast
  have here: "drain_frame s s1"
    using drain_frame_call s1 by simp
  show ?case
  proof (cases r)
    case (Inr resp)
    with call step here show ?thesis
      by (simp add: Let_def split: sum.splits)
  next
    case (Inl e)
    with call step here show ?thesis
      by (cases e) (simp_all split: sum.splits)
  qed
qed

lemma drain_batches_frame:
  "drain_frame s (snd (snd (drain_batches batches bucket m total_deleted s)))"
proof (induction batches arbitrary: total_deleted s)
  case Nil
  show ?case by (simp add: drain_frame_refl)
next
  case (Cons batch batches)
  obtain x total1 s1 where
    loop: "delete_attempts [0..<nat m] batch total_deleted s = (x, total1, s1)"
    by (cases "delete_attempts [0..<nat m] batch total_deleted s") auto
  have here: "drain_frame s s1"
    using delete_attempts_frame [of s "[0..<nat m]" batch total_deleted] loop by simp
  have "drain_frame s1 (snd (snd (drain_batches batches bucket m total1 s1)))"
    by (rule Cons.IH)
  with here have "drain_frame s (snd (snd (drain_batches batches bucket m total1 s1)))"
    by (rule drain_frame_trans)
  with here loop show ?case by (cases x) simp_all
qed

lemma drain_pages_frame:
  "drain_frame s (snd (snd (drain_pages pages bucket n m total_deleted s)))"
proof (induction pages bucket n m total_deleted s rule: drain_pages.induct)
  case (1 bucket n m total_deleted s)
  show ?case by (simp add: drain_frame_refl)
next
  case (2 e rest bucket n m total_deleted s)
  show ?case by (simp add: drain_frame_refl)
next
  case (3 contents rest bucket n m total_deleted s)
  show ?case
  proof (cases "contents = []")
    case True
    with 3 show ?thesis by simp
  next
    case False
    obtain x total1 s1 where
      inner: "drain_batches (batched contents n) bucket m total_deleted s = (x, total1, s1)"
      by (cases "drain_batches (batched contents n) bucket m total_deleted s") auto
    have here: "drain_frame s s1"
      using drain_batches_frame [of s "batched contents n" bucket m total_deleted] inner
      by simp
    show ?thesis
    proof (cases x)
      case Completed
      with 3(2) [OF False] inner
      have "drain_frame s1 (snd (snd (drain_pages rest bucket n m total1 s1)))"
        by simp
      with here have "drain_frame s (snd (snd (drain_pages rest bucket n m total1 s1)))"
        by (rule drain_frame_trans)
      with False inner Completed show ?thesis by simp
    next
      case Gone
      with False inner here show ?thesis by simp
    next
      case (Raised e)
      with False inner here show ?thesis by simp
    qed
  qed
qed

lemma empty_bucket_frame:
  "on_delete_bucket (snd (empty_bucket s bucket n m)) = on_delete_bucket s
   \<and> delete_bucket_requests (snd (empty_bucket s bucket n m)) = delete_bucket_requests s
   \<and> listings (snd (empty_bucket s bucket n m)) = Suc (listings s)"
proof -
  let ?s0 = "s\<lparr>listings := Suc (listings s)\<rparr>"
  obtain x total1 s1 where
    run: "drain_pages (on_list_objects s (listings s)) bucket n m 0 ?s0 = (x, total1, s1)"
    by (cases "drain_pages (on_list_objects s (listings s)) bucket n m 0 ?s0") auto
  have "drain_frame ?s0 s1"
    using drain_pages_frame [of ?s0 "on_list_objects s (listings s)" bucket n m 0] run by simp
  then have "on_delete_bucket s1 = on_delete_bucket s
      \<and> delete_bucket_requests s1 = delete_bucket_requests s \<and> listings s1 = Suc (listings s)"
    by (simp add: drain_frame_def)
  with run show ?thesis
    by (cases x) (simp_all add: empty_bucket_def paginate_def)
qed

section \<open>Properties of the Bucket Remover\<close>

lemma delete_bucket_attempts_all_fail:
  "(\<And>k. k < length attempts \<Longrightarrow>
      fails_other (on_delete_bucket s (delete_bucket_requests s + k)))
   \<Longrightarrow> list_all (\<lambda>i. i < float_limit) attempts
   \<Longrightarrow> delete_bucket_attempts attempts s =
        (Inr None,
         s\<lparr>delete_bucket_requests := delete_bucket_requests s + length attempts,
           slept := slept s @ map (\<lambda>i. min (2 ^ i * (1 / 2)) 5) attempts\<rparr>)"
proof (induction attempts arbitrary: s)
  case Nil
  show ?case by simp
next
  case (Cons i attempts)
  let ?s1 = "sleep (min (2 ^ i * (1 / 2)) 5)
               (s\<lparr>delete_bucket_requests := Suc (delete_bucket_requests s)\<rparr>)"
  have first: "fails_other (on_delete_bucket s (delete_bucket_requests s))"
    using Cons.prems(1) [of 0] by simp
  then obtain code where
    resp: "on_delete_bucket s (delete_bucket_requests s) = Inl (ClientError code)"
    and code: "code \<noteq> Some ''NoSuchBucket''"
    by (auto simp: fails_other_def split: sum.splits exn.splits)
  have delay: "backoff i (1 / 2) 5 = Inr (min (2 ^ i * (1 / 2)) 5)"
    using Cons.prems(2) by (simp add: backoff_in_range)
  have later: "\<And>k. k < length attempts \<Longrightarrow>
      fails_other (on_delete_bucket ?s1 (delete_bucket_requests ?s1 + k))"
    using Cons.prems(1) by (force simp: sleep_def)
  have rest: "list_all (\<lambda>i. i < float_limit) attempts"
    using Cons.prems(2) by simp
  from Cons.IH [OF later rest] resp code delay show ?case
    by (simp add: call_delete_bucket_def sleep_def)
qed






lemma delete_bucket_fallback_status:
  "(case delete_bucket_fallback s1 bucket of
      (st, s2) \<Rightarrow>
        listings s2 = Suc (listings s1)
        \<and> (st = ''deleted'' \<or> st = ''failed'')
        \<and> delete_bucket_requests s2 =
            (case fst (empty_bucket s1 bucket 1000 5) of
               Inl e \<Rightarrow> delete_bucket_requests s1
             | Inr d \<Rightarrow> Suc (delete_bucket_requests s1))
        \<and> (st = ''deleted'') =
            (case fst (empty_bucket s1 bucket 1000 5) of
               Inl e \<Rightarrow> False
             | Inr d \<Rightarrow> on_delete_bucket s1 (delete_bucket_requests s1) = Inr ()))"
proof -
  obtain r s2 where drain: "empty_bucket s1 bucket 1000 5 = (r, s2)"
    by (cases "empty_bucket s1 bucket 1000 5")
  have frame: "on_delete_bucket s2 = on_delete_bucket s1
      \<and> delete_bucket_requests s2 = delete_bucket_requests s1
      \<and> listings s2 = Suc (listings s1)"
    using empty_bucket_frame [of s1 bucket 1000 5] drain by simp
  show ?thesis
  proof (cases r)
    case (Inl e)
    with drain frame show ?thesis
      by (simp add: delete_bucket_fallback_def)
  next
    case (Inr d)
    with drain frame show ?thesis
      by (cases "on_delete_bucket s1 (delete_bucket_requests s1)")
         (simp_all add: delete_bucket_fallback_def call_delete_bucket_def)
  qed
qed




text \<open>
  C10. When the initial loop is exhausted (every attempt failed for a reason other than
  not-found, which the loop can only run through for a budget of at most
  \<open>float_limit\<close>) and the delete-bucket call of the fallback pass reports not-found,
  the result is \<^verbatim>\<open>"failed"\<close>: the handler of the fallback pass does not look at the
  error code. That call is made whenever the re-drain returns.
\<close>

theorem fallback_not_found_is_failed:
  assumes bound: "retries \<le> int float_limit"
    and exhausted: "\<forall>k < nat retries.
      fails_other (on_delete_bucket s (delete_bucket_requests s + k))"
    and not_found: "on_delete_bucket s (delete_bucket_requests s + nat retries)
      = Inl (ClientError (Some ''NoSuchBucket''))"
  shows "fst (delete_bucket s bucket retries) = Inr ''failed''
    \<and> delete_bucket_requests (snd (delete_bucket s bucket retries)) =
        (case fst (empty_bucket (after_failures s (nat retries)) bucket 1000 5) of
           Inl e \<Rightarrow> delete_bucket_requests s + nat retries
         | Inr d \<Rightarrow> Suc (delete_bucket_requests s + nat retries))"
proof -
  let ?s1 = "after_failures s (nat retries)"
  have "nat retries \<le> float_limit"
    using bound by simp
  then have in_range: "list_all (\<lambda>i. i < float_limit) [0..<nat retries]"
    by (simp only: range_in_range)
  have loop: "delete_bucket_attempts [0..<nat retries] s = (Inr None, ?s1)"
    using delete_bucket_attempts_all_fail [of "[0..<nat retries]" s] exhausted in_range
    by (simp add: after_failures_def)
  obtain st s2 where fb: "delete_bucket_fallback ?s1 bucket = (st, s2)"
    by (cases "delete_bucket_fallback ?s1 bucket")
  have here: "on_delete_bucket ?s1 (delete_bucket_requests ?s1)
      = Inl (ClientError (Some ''NoSuchBucket''))"
    using not_found by (simp add: after_failures_def)
  have count: "delete_bucket_requests ?s1 = delete_bucket_requests s + nat retries"
    by (simp add: after_failures_def)
  have facts: "listings s2 = Suc (listings ?s1)
      \<and> (st = ''deleted'' \<or> st = ''failed'')
      \<and> delete_bucket_requests s2 =
          (case fst (empty_bucket ?s1 bucket 1000 5) of
             Inl e \<Rightarrow> delete_bucket_requests ?s1
           | Inr d \<Rightarrow> Suc (delete_bucket_requests ?s1))
      \<and> (st = ''deleted'') =
          (case fst (empty_bucket ?s1 bucket 1000 5) of
             Inl e \<Rightarrow> False
           | Inr d \<Rightarrow> on_delete_bucket ?s1 (delete_bucket_requests ?s1) = Inr ())"
    by (rule delete_bucket_fallback_status [of ?s1 bucket, unfolded fb prod.case])
  have "st \<noteq> ''deleted''"
    using facts here by (cases "fst (empty_bucket ?s1 bucket 1000 5)") simp_all
  with facts have st: "st = ''failed''" by blast
  have result: "delete_bucket s bucket retries = (Inr st, s2)"
    using loop fb by (simp add: delete_bucket_def)
  show ?thesis
    using result st facts count
    by (cases "fst (empty_bucket ?s1 bucket 1000 5)") simp_all
qed

theorem fallback_not_found_is_failed_witness:
  "fst (delete_bucket racing_store ''b'' 5) = Inr ''failed''
   \<and> delete_bucket_requests (snd (delete_bucket racing_store ''b'' 5)) = 6"
proof -
  have bound: "(5 :: int) \<le> int float_limit"
    by (simp add: float_limit_def)
  have exhausted: "\<forall>k < nat 5.
      fails_other (on_delete_bucket racing_store (delete_bucket_requests racing_store + k))"
    by (simp add: racing_store_def fresh_client_def fails_other_def)
  have not_found: "on_delete_bucket racing_store (delete_bucket_requests racing_store + nat 5)
      = Inl (ClientError (Some ''NoSuchBucket''))"
    by (simp add: racing_store_def fresh_client_def)
  have drained: "fst (empty_bucket (after_failures racing_store (nat 5)) ''b'' 1000 5)
      = Inr \<lparr>bucket_name = ''b'', deleted = 0, status = ''emptied'', final = None\<rparr>"
    by code_simp
  from fallback_not_found_is_failed [OF bound exhausted not_found, of "''b''"] drained
  show ?thesis
    by (simp add: racing_store_def fresh_client_def)
qed

section \<open>The count of deleted objects in quiet mode\<close>

lemma batched_loop_single:
  "int (length batch + length xs) \<le> n \<Longrightarrow> batch @ xs \<noteq> []
   \<Longrightarrow> batched_loop xs n batch = [batch @ xs]"
proof (induction xs arbitrary: batch)
  case Nil
  then show ?case by simp
next
  case (Cons x xs)
  show ?case
  proof (cases "int (length (batch @ [x])) \<ge> n")
    case True
    with Cons.prems(1) have "xs = []" by (cases xs) simp_all
    with True show ?thesis by (simp add: Let_def)
  next
    case False
    have "batched_loop xs n (batch @ [x]) = [(batch @ [x]) @ xs]"
      using Cons.prems by (intro Cons.IH) simp_all
    with False show ?thesis by (simp add: Let_def)
  qed
qed

lemma batched_single:
  "xs \<noteq> [] \<Longrightarrow> int (length xs) \<le> n \<Longrightarrow> batched xs n = [xs]"
  using batched_loop_single [of "[]" xs n] by (simp add: batched_def)

lemma five_attempts: "[0..<5] = [0, 1, 2, 3, 4 :: nat]"
  by (simp add: upt_rec)

text \<open>
  C3. A page of 1000 keys, batch size 1000; the first batched delete reports the keys
  at positions 3 and 77 as per-key errors, the second reports none; both responses are
  quiet, so neither lists a deleted key. The drain makes exactly two delete calls, the
  second for the two failed keys only, and returns \<^verbatim>\<open>emptied\<close> with a total of 0:
  the total counts the entries of \<^verbatim>\<open>Deleted\<close>, which a quiet response does not have.
\<close>

theorem quiet_narrowed_retry_count:
  assumes page: "on_list_objects s (listings s) = [Inr keys]"
    and size: "length keys = 1000"
    and first: "on_delete_objects s (length (delete_requests s))
      = Inr \<lparr>Deleted = [], Errors = [keys ! 3, keys ! 77]\<rparr>"
    and second: "on_delete_objects s (Suc (length (delete_requests s)))
      = Inr \<lparr>Deleted = [], Errors = []\<rparr>"
  shows "fst (empty_bucket s bucket 1000 5)
      = Inr \<lparr>bucket_name = bucket, deleted = 0, status = ''emptied'', final = None\<rparr>
    \<and> delete_requests (snd (empty_bucket s bucket 1000 5))
      = delete_requests s @ [keys, [keys ! 3, keys ! 77]]"
proof -
  have nonempty: "keys \<noteq> []"
    using size by auto
  have one: "batched keys 1000 = [keys]"
    using nonempty size by (intro batched_single) simp_all
  show ?thesis
    using page first second nonempty
    by (simp add: empty_bucket_def paginate_def one five_attempts call_delete_objects_def
        sleep_def backoff_def float_limit_def)
qed

theorem quiet_narrowed_retry_count_witness:
  "fst (empty_bucket thousand_store ''b'' 1000 5)
      = Inr \<lparr>bucket_name = ''b'', deleted = 0, status = ''emptied'', final = None\<rparr>
    \<and> delete_requests (snd (empty_bucket thousand_store ''b'' 1000 5))
      = [thousand_keys, [''k3'', ''k77'']]"
proof -
  have k3: "thousand_keys ! 3 = ''k3''"
    by (simp add: thousand_keys_def key_name_def decimal.simps)
  have k77: "thousand_keys ! 77 = ''k77''"
    by (simp add: thousand_keys_def key_name_def decimal.simps)
  have page: "on_list_objects thousand_store (listings thousand_store) = [Inr thousand_keys]"
    by (simp add: thousand_store_def fresh_client_def)
  have size: "length thousand_keys = 1000"
    by (simp add: thousand_keys_def)
  have first: "on_delete_objects thousand_store (length (delete_requests thousand_store))
      = Inr \<lparr>Deleted = [], Errors = [thousand_keys ! 3, thousand_keys ! 77]\<rparr>"
    by (simp add: thousand_store_def fresh_client_def k3 k77)
  have second: "on_delete_objects thousand_store (Suc (length (delete_requests thousand_store)))
      = Inr \<lparr>Deleted = [], Errors = []\<rparr>"
    by (simp add: thousand_store_def fresh_client_def quiet_ok_def)
  have start: "delete_requests thousand_store = []"
    by (simp add: thousand_store_def fresh_client_def)
  from quiet_narrowed_retry_count [OF page size first second, of "''b''"] show ?thesis
    by (simp add: k3 k77 start)
qed

section \<open>Properties of the Name Filter\<close>

lemma literal_dollar_pattern:
  "literal_re_compile elsewhere ''2$'' = Inr (literal_search ''2$'')
   \<and> \<not> literal_search ''2$'' ''a1'' \<and> literal_search ''2$'' ''a2''"
  by (simp add: literal_re_compile_def literal_fragment_def literal_search_def
      literal_body_def anchored_end_def after_start_def anchored_start_def meta_chars_def)

lemma literal_empty_pattern:
  "literal_re_compile elsewhere [] = Inr (literal_search []) \<and> literal_search [] n"
  by (cases n)
     (simp_all add: literal_re_compile_def literal_fragment_def literal_search_def
        literal_body_def anchored_end_def after_start_def anchored_start_def)

text \<open>
  C8, as the code has it. \<open>filter_buckets\<close> is the filter of the specification with
  one difference: an exclude pattern given as the empty string counts as not given, so
  that it excludes nothing and the result is the list after prefix inclusion. In every
  other case prefix inclusion is applied when a prefix is given, and then the names
  the pattern finds a match in are dropped, when a pattern is given. The result is a
  subsequence of the input, so order is preserved; the function is pure, so it is
  deterministic and leaves its input as it was. For any regular-expression library in
  which \<^verbatim>\<open>2$\<close> matches \<^verbatim>\<open>a2\<close> and not \<^verbatim>\<open>a1\<close>, the names \<^verbatim>\<open>a1\<close>, \<^verbatim>\<open>a2\<close>, \<^verbatim>\<open>b1\<close> with
  prefix \<^verbatim>\<open>a\<close> and pattern \<^verbatim>\<open>2$\<close> give \<^verbatim>\<open>a1\<close> alone.
\<close>

theorem filter_buckets_refines_spec:
  "filter_buckets re_compile names include_prefix exclude_regex
      = name_filter_spec re_compile names include_prefix
          (if exclude_regex = Some [] then None else exclude_regex)
    \<and> filter_buckets re_compile names include_prefix (Some [])
      = Inr (case include_prefix of
               None \<Rightarrow> names
             | Some p \<Rightarrow> filter (\<lambda>n. prefix p n) names)
    \<and> (\<forall>out. filter_buckets re_compile names include_prefix exclude_regex = Inr out
          \<longrightarrow> subseq out names)
    \<and> (re_compile ''2$'' = Inr rx \<and> \<not> rx ''a1'' \<and> rx ''a2''
          \<longrightarrow> filter_buckets re_compile [''a1'', ''a2'', ''b1''] (Some ''a'') (Some ''2$'')
                = Inr [''a1''])"
proof -
  have same: "filter_buckets re_compile names include_prefix exclude_regex
      = name_filter_spec re_compile names include_prefix
          (if exclude_regex = Some [] then None else exclude_regex)"
    by (auto simp: filter_buckets_def name_filter_spec_def Let_def
        split: option.splits sum.splits)
  have empty: "filter_buckets re_compile names include_prefix (Some [])
      = Inr (case include_prefix of
               None \<Rightarrow> names
             | Some p \<Rightarrow> filter (\<lambda>n. prefix p n) names)"
    by (auto simp: filter_buckets_def Let_def split: option.splits)
  have ordered: "\<forall>out. filter_buckets re_compile names include_prefix exclude_regex = Inr out
      \<longrightarrow> subseq out names"
    by (auto simp: filter_buckets_def Let_def
        split: option.splits sum.splits if_splits
        intro: subseq_order.order_trans [OF subseq_filter_left subseq_filter_left])
  have example: "re_compile ''2$'' = Inr rx \<and> \<not> rx ''a1'' \<and> rx ''a2''
      \<longrightarrow> filter_buckets re_compile [''a1'', ''a2'', ''b1''] (Some ''a'') (Some ''2$'')
            = Inr [''a1'']"
    by (simp add: filter_buckets_def)
  show ?thesis
    by (rule conjI [OF same conjI [OF empty conjI [OF ordered example]]])
qed

theorem filter_buckets_refines_spec_witness:
  "\<forall>elsewhere.
     filter_buckets (literal_re_compile elsewhere) [''a1'', ''a2'', ''b1''] (Some ''a'')
         (Some ''2$'') = Inr [''a1'']
     \<and> filter_buckets (literal_re_compile elsewhere) [''a1'', ''a2'', ''b1''] (Some ''a'')
         (Some []) = Inr [''a1'', ''a2'']
     \<and> subseq [''a1''] [''a1'', ''a2'', ''b1'']"
proof
  fix elsewhere
  let ?re = "literal_re_compile elsewhere"
  note facts = filter_buckets_refines_spec [of ?re "[''a1'', ''a2'', ''b1'']" "Some ''a''"
      "Some ''2$''" "literal_search ''2$''"]
  have example: "filter_buckets ?re [''a1'', ''a2'', ''b1''] (Some ''a'') (Some ''2$'')
      = Inr [''a1'']"
    using facts literal_dollar_pattern [of elsewhere] by blast
  have empty: "filter_buckets ?re [''a1'', ''a2'', ''b1''] (Some ''a'') (Some [])
      = Inr [''a1'', ''a2'']"
    using facts by simp
  have "subseq [''a1''] [''a1'', ''a2'', ''b1'']"
    using facts example by blast
  with example empty show "filter_buckets ?re [''a1'', ''a2'', ''b1''] (Some ''a'')
         (Some ''2$'') = Inr [''a1'']
     \<and> filter_buckets ?re [''a1'', ''a2'', ''b1''] (Some ''a'') (Some [])
         = Inr [''a1'', ''a2'']
     \<and> subseq [''a1''] [''a1'', ''a2'', ''b1'']"
    by blast
qed

text \<open>
  The claim as stated fails for an exclude pattern given as the empty string: the test
  \<^verbatim>\<open>if exclude_regex:\<close> is false for it, so nothing is excluded, although the empty
  pattern compiles and matches in every name. The filter of the specification drops
  the name \<^verbatim>\<open>a1\<close>; \<open>filter_buckets\<close> keeps it, whatever the library does on patterns
  outside the literal fragment.
\<close>

theorem filter_buckets_empty_regex_counterexample:
  "\<forall>elsewhere.
     filter_buckets (literal_re_compile elsewhere) [''a1''] None (Some []) = Inr [''a1'']
     \<and> name_filter_spec (literal_re_compile elsewhere) [''a1''] None (Some []) = Inr []"
proof
  fix elsewhere
  have "filter_buckets (literal_re_compile elsewhere) [''a1''] None (Some []) = Inr [''a1'']"
    by (simp add: filter_buckets_def)
  moreover have "name_filter_spec (literal_re_compile elsewhere) [''a1''] None (Some [])
      = Inr []"
    using literal_empty_pattern [of elsewhere]
    by (simp add: name_filter_spec_def)
  ultimately show "filter_buckets (literal_re_compile elsewhere) [''a1''] None (Some [])
        = Inr [''a1'']
      \<and> name_filter_spec (literal_re_compile elsewhere) [''a1''] None (Some []) = Inr []"
    by blast
qed

end
